theory Spec2Isabelle
  imports Main
begin

section \<open>Go runtime primitives used by the worker pool\<close>

text \<open>
  Errors are values. \<open>Canceled\<close> and \<open>DeadlineExceeded\<close> are the two errors a
  \<open>context.Context\<close> reports; \<open>ErrorString\<close> stands for \<open>errors.New\<close> and
  \<open>fmt.Errorf\<close> values, identified by their message.
\<close>

datatype error = Canceled | DeadlineExceeded | ErrorString string

text \<open>
  A channel \<open>make(chan T, n)\<close>: the buffered elements in FIFO order, the capacity and
  the closed flag.
\<close>

record 'a chan =
  buf :: "'a list"
  cap :: nat
  closed :: bool

text \<open>
  What the program reads from the Go runtime of its host: \<open>runtime.NumCPU()\<close>, and the
  two constants of the allocator that \<open>makechan\<close> checks a size against.
\<close>

record runtime =
  NumCPU :: int
  maxAlloc :: nat
  hchanSize :: nat

text \<open>
  \<open>make(chan T, n)\<close>, for elements of \<open>elemsize\<close> bytes, as \<open>makechan\<close> of
  \<open>runtime/chan.go\<close> decides it: it panics when the size is negative, when the bytes of
  the buffer overflow a \<open>uintptr\<close>, and when they exceed \<open>maxAlloc - hchanSize\<close>. The
  size is a Go \<open>int\<close>: a number from \<open>2^63\<close> on cannot be passed, and is out of range
  here as well. The allocation that follows is taken to succeed: a host without memory
  left ends the process in any allocation, and no step of this theory models that.
\<close>

definition out_of_range :: "runtime \<Rightarrow> nat \<Rightarrow> int \<Rightarrow> bool" where
  "out_of_range rt elemsize n =
     (let mem = int elemsize * n
      in n < 0 \<or> 2 ^ 63 \<le> n \<or> 2 ^ 64 \<le> mem
         \<or> int (maxAlloc rt) - int (hchanSize rt) < mem)"

definition make_chan :: "runtime \<Rightarrow> nat \<Rightarrow> int \<Rightarrow> string + 'a chan" where
  "make_chan rt elemsize n =
     (if out_of_range rt elemsize n then Inl ''makechan: size out of range''
      else Inr \<lparr>buf = [], cap = nat n, closed = False\<rparr>)"

text \<open>
  A send that does not wait: it panics on a closed channel, succeeds while the buffer has
  room and cannot proceed otherwise (the direct handoff to a waiting receiver is the
  rendezvous step of the scheduler below).
\<close>

datatype 'a sent = Sent "'a chan" | SendBlocked | SendPanic

definition chan_send :: "'a chan \<Rightarrow> 'a \<Rightarrow> 'a sent" where
  "chan_send c v =
     (if closed c then SendPanic
      else if length (buf c) < cap c then Sent (c\<lparr>buf := buf c @ [v]\<rparr>)
      else SendBlocked)"

text \<open>
  A receive \<open>v, ok := <-c\<close>: a buffered element is delivered with \<open>ok = true\<close>, also
  after the channel was closed; an empty closed channel delivers \<open>ok = false\<close>; an empty
  open channel cannot proceed.
\<close>

datatype 'a received = Received 'a "'a chan" | RecvClosed | RecvBlocked

definition chan_recv :: "'a chan \<Rightarrow> 'a received" where
  "chan_recv c =
     (case buf c of
        v # vs \<Rightarrow> Received v (c\<lparr>buf := vs\<rparr>)
      | [] \<Rightarrow> if closed c then RecvClosed else RecvBlocked)"

text \<open>\<open>close(c)\<close> panics when the channel is closed already.\<close>

definition chan_close :: "'a chan \<Rightarrow> 'a chan option" where
  "chan_close c = (if closed c then None else Some (c\<lparr>closed := True\<rparr>))"

text \<open>
  A \<open>context.Context\<close> the caller can hold: the root \<open>context.Background()\<close>, which is
  never done, or a cancellable context (made by \<open>WithCancel\<close>, \<open>WithTimeout\<close> or
  \<open>WithDeadline\<close>) with its \<open>err\<close> field, \<open>None\<close> while it is live, and the context it
  was derived from.
\<close>

datatype Context = Background | cancelCtx "error option" Context

fun ctx_Err :: "Context \<Rightarrow> error option" where
  "ctx_Err Background = None"
| "ctx_Err (cancelCtx e parent) = e"

definition Done :: "Context \<Rightarrow> bool" where
  "Done c = (ctx_Err c \<noteq> None)"

text \<open>
  The cancellation of a context with an error: the first error stays, and the root
  cannot be cancelled. The cancel function that \<open>WithCancel\<close> returns cancels with
  \<open>Canceled\<close>.
\<close>

fun cancel_with :: "error \<Rightarrow> Context \<Rightarrow> Context" where
  "cancel_with e Background = Background"
| "cancel_with e (cancelCtx None parent) = cancelCtx (Some e) parent"
| "cancel_with e (cancelCtx (Some e') parent) = cancelCtx (Some e') parent"

definition cancel :: "Context \<Rightarrow> Context" where
  "cancel c = cancel_with Canceled c"

text \<open>
  \<open>context.WithCancel(parent)\<close>: the child of \<open>parent\<close>, done from the start with the
  parent's error when the parent is done already.
\<close>

definition WithCancel :: "Context \<Rightarrow> Context" where
  "WithCancel parent = cancelCtx (ctx_Err parent) parent"

text \<open>
  A cancellation further up: the ancestor \<open>d\<close> levels above a context is cancelled with
  an error (\<open>d = 0\<close> is the context itself), and a context that is done passes its error
  down to its child, which keeps an error it has already.
\<close>

fun cancel_ancestor :: "nat \<Rightarrow> error \<Rightarrow> Context \<Rightarrow> Context" where
  "cancel_ancestor d e Background = Background"
| "cancel_ancestor 0 e (cancelCtx x parent) = cancel_with e (cancelCtx x parent)"
| "cancel_ancestor (Suc d) e (cancelCtx x parent) =
     (let parent' = cancel_ancestor d e parent
      in case ctx_Err parent' of
           None \<Rightarrow> cancelCtx x parent'
         | Some e' \<Rightarrow> cancel_with e' (cancelCtx x parent'))"

text \<open>
  The counter of a \<open>sync.WaitGroup\<close> is 32 bits wide and signed: \<open>Add(delta)\<close> adds the
  low 32 bits of \<open>delta\<close>, wraps, and panics when the counter it gets is negative;
  \<open>Done()\<close> is \<open>Add(-1)\<close>. \<open>Wait()\<close> is one step, which can be taken when the counter
  is zero; the count of waiters, which \<open>Add\<close> and \<open>Wait\<close> use to detect an \<open>Add\<close> that
  runs at the same moment as a \<open>Wait\<close>, is not kept.
\<close>

definition int32 :: "int \<Rightarrow> int" where
  "int32 x = (x + 2 ^ 31) mod 2 ^ 32 - 2 ^ 31"

definition wg_Add :: "int \<Rightarrow> int \<Rightarrow> int option" where
  "wg_Add counter delta =
     (let v = int32 (counter + delta) in if v < 0 then None else Some v)"

text \<open>Go's \<open>int\<close> is 64 bits wide on the hosts of this program; its arithmetic wraps.\<close>

definition int64 :: "int \<Rightarrow> int" where
  "int64 x = (x + 2 ^ 63) mod 2 ^ 64 - 2 ^ 63"

section \<open>The pool: \<open>pkg/concurrency/workerpool/pool.go\<close>\<close>

record 'r Result =
  Value :: 'r
  Err :: "error option"

record ('t, 'r) WorkerPool =
  taskChan :: "'t chan"
  resultChan :: "'r Result chan"
  wg :: int
  ctx :: Context
  numWorkers :: int

text \<open>
  \<open>NewWorkerPool[T, R](cxt, taskBuffer)\<close> on a host \<open>rt\<close>, for a task type of
  \<open>sizeof_T\<close> bytes and a \<open>Result[R]\<close> of \<open>sizeof_Result\<close> bytes. The \<open>cancel\<close>
  field of the struct is the function \<open>cancel\<close> applied to \<open>ctx\<close>.
\<close>

definition NewWorkerPool ::
  "runtime \<Rightarrow> nat \<Rightarrow> nat \<Rightarrow> Context \<Rightarrow> int \<Rightarrow> string + ('t, 'r) WorkerPool" where
  "NewWorkerPool rt sizeof_T sizeof_Result cxt taskBuffer =
     (let n = (if NumCPU rt < 1 then 1 else NumCPU rt);
          c = WithCancel cxt
      in case make_chan rt sizeof_T taskBuffer of
           Inl msg \<Rightarrow> Inl msg
         | Inr tc \<Rightarrow>
             (case make_chan rt sizeof_Result taskBuffer of
                Inl msg \<Rightarrow> Inl msg
              | Inr rc \<Rightarrow>
                  Inr \<lparr>taskChan = tc, resultChan = rc, wg = 0, ctx = c, numWorkers = n\<rparr>))"

definition WithWorkers :: "('t, 'r) WorkerPool \<Rightarrow> int \<Rightarrow> ('t, 'r) WorkerPool" where
  "WithWorkers wp n = (if n > 0 then wp\<lparr>numWorkers := n\<rparr> else wp)"


subsection \<open>The goroutines and their steps\<close>

text \<open>
  The task function \<open>workerFunc(ctx, task)\<close> either returns its pair \<open>(R, error)\<close> or
  panics; the panic value is kept as the text \<open>%v\<close> prints for it. It reads the
  context it is handed.
\<close>

datatype 'r outcome = Return 'r "error option" | Panic string

type_synonym ('t, 'r) workerFunc = "Context \<Rightarrow> 't \<Rightarrow> 'r outcome"

text \<open>
  A \<open>select\<close> with several cases that can proceed takes any one of them; the scheduler
  names the case: the \<open><-wp.ctx.Done()\<close> case or the channel operation. A step either
  moves on, cannot proceed yet, or panics with nobody to recover (the process dies).
\<close>

datatype choice = OnDone | OnComm

datatype 's stepped = Next 's | Blocked | Crash string

text \<open>
  One worker goroutine of \<open>Start\<close>, by the place it is at: the \<open>select\<close> of line 62, the
  call of \<open>workerFunc\<close> (line 88), the \<open>select\<close> that publishes the result (line 91), the
  \<open>select\<close> inside the deferred \<open>recover\<close> (line 79), and returned.
\<close>

datatype ('t, 'r) worker =
  W_select | W_exec 't | W_send "'r Result" | W_recover "'r Result" | W_exit

text \<open>The deferred \<open>wp.wg.Done()\<close> of a returning worker.\<close>

definition worker_return ::
  "('t, 'r) WorkerPool \<Rightarrow> (('t, 'r) WorkerPool \<times> ('t, 'r) worker) stepped" where
  "worker_return wp =
     (case wg_Add (wg wp) (- 1) of
        None \<Rightarrow> Crash ''sync: negative WaitGroup counter''
      | Some v \<Rightarrow> Next (wp\<lparr>wg := v\<rparr>, W_exit))"

definition panic_result :: "'r \<Rightarrow> string \<Rightarrow> 'r Result" where
  "panic_result emptyR r = \<lparr>Value = emptyR, Err = Some (ErrorString (''panic in worker: '' @ r))\<rparr>"

fun worker_step ::
  "('t, 'r) workerFunc \<Rightarrow> 'r \<Rightarrow> choice \<Rightarrow> ('t, 'r) WorkerPool \<Rightarrow> ('t, 'r) worker
     \<Rightarrow> (('t, 'r) WorkerPool \<times> ('t, 'r) worker) stepped" where
  "worker_step f emptyR OnDone wp W_select =
     (if Done (ctx wp) then worker_return wp else Blocked)"
| "worker_step f emptyR OnComm wp W_select =
     (case chan_recv (taskChan wp) of
        Received task tc \<Rightarrow> Next (wp\<lparr>taskChan := tc\<rparr>, W_exec task)
      | RecvClosed \<Rightarrow> worker_return wp
      | RecvBlocked \<Rightarrow> Blocked)"
| "worker_step f emptyR c wp (W_exec task) =
     (case f (ctx wp) task of
        Return result err \<Rightarrow> Next (wp, W_send \<lparr>Value = result, Err = err\<rparr>)
      | Panic r \<Rightarrow> Next (wp, W_recover (panic_result emptyR r)))"
| "worker_step f emptyR OnDone wp (W_send res) =
     (if Done (ctx wp) then Next (wp, W_select) else Blocked)"
| "worker_step f emptyR OnComm wp (W_send res) =
     (case chan_send (resultChan wp) res of
        Sent rc \<Rightarrow> Next (wp\<lparr>resultChan := rc\<rparr>, W_select)
      | SendBlocked \<Rightarrow> Blocked
      | SendPanic \<Rightarrow> Next (wp, W_recover (panic_result emptyR ''send on closed channel'')))"
| "worker_step f emptyR OnDone wp (W_recover res) =
     (if Done (ctx wp) then Next (wp, W_select) else Blocked)"
| "worker_step f emptyR OnComm wp (W_recover res) =
     (case chan_send (resultChan wp) res of
        Sent rc \<Rightarrow> Next (wp\<lparr>resultChan := rc\<rparr>, W_select)
      | SendBlocked \<Rightarrow> Blocked
      | SendPanic \<Rightarrow> Crash ''send on closed channel'')"
| "worker_step f emptyR c wp W_exit = Blocked"

text \<open>\<open>Submit(task)\<close>: the \<open>select\<close> of line 107, then the returned boolean.\<close>

datatype 't submit = Submit_select 't | Submit_return bool

fun Submit_step ::
  "choice \<Rightarrow> ('t, 'r) WorkerPool \<Rightarrow> 't submit \<Rightarrow> (('t, 'r) WorkerPool \<times> 't submit) stepped" where
  "Submit_step OnDone wp (Submit_select task) =
     (if Done (ctx wp) then Next (wp, Submit_return False) else Blocked)"
| "Submit_step OnComm wp (Submit_select task) =
     (case chan_send (taskChan wp) task of
        Sent tc \<Rightarrow> Next (wp\<lparr>taskChan := tc\<rparr>, Submit_return True)
      | SendBlocked \<Rightarrow> Blocked
      | SendPanic \<Rightarrow> Crash ''send on closed channel'')"
| "Submit_step c wp (Submit_return b) = Blocked"

text \<open>
  \<open>SubmitWait(task)\<close>: the check of line 123, the \<open>select\<close> of line 131, then the wait
  for the private one-slot channel, which only the goroutine of line 139 fills: from its
  \<open>select\<close> of line 140, with the first result of the shared channel or with the context's
  error. When that \<open>select\<close> finds the shared channel closed nothing is sent and the caller
  waits for ever.
\<close>

datatype ('t, 'r) submitWait =
  SW_check 't | SW_select 't | SW_wait | SW_return 'r "error option" | SW_stuck

fun SubmitWait_step ::
  "'r \<Rightarrow> choice \<Rightarrow> ('t, 'r) WorkerPool \<Rightarrow> ('t, 'r) submitWait
     \<Rightarrow> (('t, 'r) WorkerPool \<times> ('t, 'r) submitWait) stepped" where
  "SubmitWait_step emptyR c wp (SW_check task) =
     (if ctx_Err (ctx wp) \<noteq> None then Next (wp, SW_return emptyR (ctx_Err (ctx wp)))
      else Next (wp, SW_select task))"
| "SubmitWait_step emptyR OnDone wp (SW_select task) =
     (if Done (ctx wp) then Next (wp, SW_return emptyR (ctx_Err (ctx wp))) else Blocked)"
| "SubmitWait_step emptyR OnComm wp (SW_select task) =
     (case chan_send (taskChan wp) task of
        Sent tc \<Rightarrow> Next (wp\<lparr>taskChan := tc\<rparr>, SW_wait)
      | SendBlocked \<Rightarrow> Blocked
      | SendPanic \<Rightarrow> Crash ''send on closed channel'')"
| "SubmitWait_step emptyR OnComm wp SW_wait =
     (case chan_recv (resultChan wp) of
        Received result rc \<Rightarrow> Next (wp\<lparr>resultChan := rc\<rparr>, SW_return (Value result) (Err result))
      | RecvClosed \<Rightarrow> Next (wp, SW_stuck)
      | RecvBlocked \<Rightarrow> Blocked)"
| "SubmitWait_step emptyR OnDone wp SW_wait =
     (if Done (ctx wp) then Next (wp, SW_return emptyR (ctx_Err (ctx wp))) else Blocked)"
| "SubmitWait_step emptyR c wp (SW_return v e) = Blocked"
| "SubmitWait_step emptyR c wp SW_stuck = Blocked"

text \<open>
  \<open>Stop()\<close>: \<open>wp.cancel()\<close>, \<open>wp.wg.Wait()\<close>, the \<open>select\<close> with \<open>default\<close> of line 166,
  and the \<open>close(wp.resultChan)\<close> its first and its last branch reach.
\<close>

datatype stop = Stop_cancel | Stop_wait | Stop_select | Stop_close | Stop_return

fun Stop_step ::
  "('t, 'r) WorkerPool \<Rightarrow> stop \<Rightarrow> (('t, 'r) WorkerPool \<times> stop) stepped" where
  "Stop_step wp Stop_cancel = Next (wp\<lparr>ctx := cancel (ctx wp)\<rparr>, Stop_wait)"
| "Stop_step wp Stop_wait = (if wg wp = 0 then Next (wp, Stop_select) else Blocked)"
| "Stop_step wp Stop_select =
     (case chan_recv (resultChan wp) of
        Received x rc \<Rightarrow> Next (wp\<lparr>resultChan := rc\<rparr>, Stop_close)
      | RecvClosed \<Rightarrow> Next (wp, Stop_return)
      | RecvBlocked \<Rightarrow> Next (wp, Stop_close))"
| "Stop_step wp Stop_close =
     (case chan_close (resultChan wp) of
        None \<Rightarrow> Crash ''close of closed channel''
      | Some rc \<Rightarrow> Next (wp\<lparr>resultChan := rc\<rparr>, Stop_return))"
| "Stop_step wp Stop_return = Blocked"

text \<open>
  \<open>GracefulStop()\<close>: the \<open>select\<close> of line 182 and its \<open>close(wp.taskChan)\<close>,
  \<open>wp.wg.Wait()\<close>, \<open>wp.cancel()\<close>, the \<open>select\<close> of line 198 and its
  \<open>close(wp.resultChan)\<close>.
\<close>

datatype gracefulStop =
  GS_select1 | GS_close1 | GS_wait | GS_cancel | GS_select2 | GS_close2 | GS_return

fun GracefulStop_step ::
  "('t, 'r) WorkerPool \<Rightarrow> gracefulStop \<Rightarrow> (('t, 'r) WorkerPool \<times> gracefulStop) stepped" where
  "GracefulStop_step wp GS_select1 =
     (case chan_recv (taskChan wp) of
        Received x tc \<Rightarrow> Next (wp\<lparr>taskChan := tc\<rparr>, GS_close1)
      | RecvClosed \<Rightarrow> Next (wp, GS_wait)
      | RecvBlocked \<Rightarrow> Next (wp, GS_close1))"
| "GracefulStop_step wp GS_close1 =
     (case chan_close (taskChan wp) of
        None \<Rightarrow> Crash ''close of closed channel''
      | Some tc \<Rightarrow> Next (wp\<lparr>taskChan := tc\<rparr>, GS_wait))"
| "GracefulStop_step wp GS_wait = (if wg wp = 0 then Next (wp, GS_cancel) else Blocked)"
| "GracefulStop_step wp GS_cancel = Next (wp\<lparr>ctx := cancel (ctx wp)\<rparr>, GS_select2)"
| "GracefulStop_step wp GS_select2 =
     (case chan_recv (resultChan wp) of
        Received x rc \<Rightarrow> Next (wp\<lparr>resultChan := rc\<rparr>, GS_close2)
      | RecvClosed \<Rightarrow> Next (wp, GS_return)
      | RecvBlocked \<Rightarrow> Next (wp, GS_close2))"
| "GracefulStop_step wp GS_close2 =
     (case chan_close (resultChan wp) of
        None \<Rightarrow> Crash ''close of closed channel''
      | Some rc \<Rightarrow> Next (wp\<lparr>resultChan := rc\<rparr>, GS_return))"
| "GracefulStop_step wp GS_return = Blocked"

text \<open>
  A consumer of \<open>GetResults()\<close>, which returns \<open>wp.resultChan\<close> itself: the loop
  \<open>for result := range pool.GetResults()\<close> of the callers, with what it has received.
\<close>

datatype 'r reader = Reading "'r Result list" | Read_end "'r Result list"

fun reader_step ::
  "('t, 'r) WorkerPool \<Rightarrow> 'r reader \<Rightarrow> (('t, 'r) WorkerPool \<times> 'r reader) stepped" where
  "reader_step wp (Reading got) =
     (case chan_recv (resultChan wp) of
        Received result rc \<Rightarrow> Next (wp\<lparr>resultChan := rc\<rparr>, Reading (got @ [result]))
      | RecvClosed \<Rightarrow> Next (wp, Read_end got)
      | RecvBlocked \<Rightarrow> Blocked)"
| "reader_step wp (Read_end got) = Blocked"


subsection \<open>The running program\<close>

datatype ('t, 'r) goroutine =
  Worker "('t, 'r) worker"
| Submitting "'t submit"
| SubmitWaiting "('t, 'r) submitWait"
| Stopping stop
| GracefulStopping gracefulStop
| Consumer "'r reader"

text \<open>
  The process: the pool, the goroutines that work on it, and the panic that killed the
  process, if one did.
\<close>

record ('t, 'r) process =
  pool :: "('t, 'r) WorkerPool"
  goroutines :: "('t, 'r) goroutine list"
  panicked :: "string option"

text \<open>
  \<open>Start(workerFunc)\<close>: \<open>wp.wg.Add(wp.numWorkers)\<close>, which panics when the 32-bit
  counter it gets is negative, then one goroutine for each \<open>i\<close> with
  \<open>0 \<le> i < numWorkers\<close>.
\<close>

definition Start :: "('t, 'r) process \<Rightarrow> ('t, 'r) process" where
  "Start s =
     (let wp = pool s; n = numWorkers wp
      in case wg_Add (wg wp) n of
           None \<Rightarrow> s\<lparr>panicked := Some ''sync: negative WaitGroup counter''\<rparr>
         | Some v \<Rightarrow>
             s\<lparr>pool := wp\<lparr>wg := v\<rparr>,
               goroutines := goroutines s @ replicate (nat n) (Worker W_select)\<rparr>)"

fun goroutine_step ::
  "('t, 'r) workerFunc \<Rightarrow> 'r \<Rightarrow> choice \<Rightarrow> ('t, 'r) WorkerPool \<Rightarrow> ('t, 'r) goroutine
     \<Rightarrow> (('t, 'r) WorkerPool \<times> ('t, 'r) goroutine) stepped" where
  "goroutine_step f emptyR c wp (Worker w) =
     map_stepped (apsnd Worker) (worker_step f emptyR c wp w)"
| "goroutine_step f emptyR c wp (Submitting p) =
     map_stepped (apsnd Submitting) (Submit_step c wp p)"
| "goroutine_step f emptyR c wp (SubmitWaiting p) =
     map_stepped (apsnd SubmitWaiting) (SubmitWait_step emptyR c wp p)"
| "goroutine_step f emptyR c wp (Stopping p) =
     map_stepped (apsnd Stopping) (Stop_step wp p)"
| "goroutine_step f emptyR c wp (GracefulStopping p) =
     map_stepped (apsnd GracefulStopping) (GracefulStop_step wp p)"
| "goroutine_step f emptyR c wp (Consumer p) =
     map_stepped (apsnd Consumer) (reader_step wp p)"

text \<open>
  On a channel of capacity 0 a value passes from a sender to a receiver directly, in one
  step of both. These are the sends and receives of the program, each with where its
  goroutine continues.
\<close>

fun offers_task :: "('t, 'r) goroutine \<Rightarrow> ('t \<times> ('t, 'r) goroutine) option" where
  "offers_task (Submitting (Submit_select task)) = Some (task, Submitting (Submit_return True))"
| "offers_task (SubmitWaiting (SW_select task)) = Some (task, SubmitWaiting SW_wait)"
| "offers_task g = None"

fun takes_task :: "('t, 'r) goroutine \<Rightarrow> 't \<Rightarrow> ('t, 'r) goroutine option" where
  "takes_task (Worker W_select) task = Some (Worker (W_exec task))"
| "takes_task (GracefulStopping GS_select1) task = Some (GracefulStopping GS_close1)"
| "takes_task g task = None"

fun offers_result :: "('t, 'r) goroutine \<Rightarrow> ('r Result \<times> ('t, 'r) goroutine) option" where
  "offers_result (Worker (W_send res)) = Some (res, Worker W_select)"
| "offers_result (Worker (W_recover res)) = Some (res, Worker W_select)"
| "offers_result g = None"

fun takes_result :: "('t, 'r) goroutine \<Rightarrow> 'r Result \<Rightarrow> ('t, 'r) goroutine option" where
  "takes_result (Consumer (Reading got)) res = Some (Consumer (Reading (got @ [res])))"
| "takes_result (SubmitWaiting SW_wait) res = Some (SubmitWaiting (SW_return (Value res) (Err res)))"
| "takes_result (Stopping Stop_select) res = Some (Stopping Stop_close)"
| "takes_result (GracefulStopping GS_select2) res = Some (GracefulStopping GS_close2)"
| "takes_result g res = None"

text \<open>
  One of the two was waiting in the channel's queue when the other arrived. A bare
  receive waits; a \<open>select\<close> with a \<open>default\<close> never does; a \<open>select\<close> with the
  \<open><-wp.ctx.Done()\<close> case waits only while the context is live, and the cancellation wakes
  it for that case.
\<close>

fun parks :: "Context \<Rightarrow> ('t, 'r) goroutine \<Rightarrow> bool" where
  "parks c (Consumer p) = True"
| "parks c (Stopping p) = False"
| "parks c (GracefulStopping p) = False"
| "parks c g = (\<not> Done c)"

definition unbuffered :: "'a chan \<Rightarrow> bool" where
  "unbuffered c = (cap c = 0 \<and> \<not> closed c)"

definition handoff :: "('t, 'r) process \<Rightarrow> nat \<Rightarrow> nat \<Rightarrow> ('t, 'r) process option" where
  "handoff s i j =
     (let gs = goroutines s; wp = pool s
      in if i < length gs \<and> j < length gs \<and> i \<noteq> j
            \<and> (parks (ctx wp) (gs ! i) \<or> parks (ctx wp) (gs ! j))
         then (case offers_task (gs ! i) of
                 Some (task, gi) \<Rightarrow>
                   (case takes_task (gs ! j) task of
                      Some gj \<Rightarrow>
                        if unbuffered (taskChan wp)
                        then Some (s\<lparr>goroutines := gs[i := gi, j := gj]\<rparr>) else None
                    | None \<Rightarrow> None)
               | None \<Rightarrow>
                   (case offers_result (gs ! i) of
                      Some (res, gi) \<Rightarrow>
                        (case takes_result (gs ! j) res of
                           Some gj \<Rightarrow>
                             if unbuffered (resultChan wp)
                             then Some (s\<lparr>goroutines := gs[i := gi, j := gj]\<rparr>) else None
                         | None \<Rightarrow> None)
                    | None \<Rightarrow> None))
         else None)"

text \<open>
  What the callers do: each call of a blocking method is a goroutine of its own, at the
  method's first statement; \<open>WithWorkers\<close> and \<open>Start\<close> do not wait and take effect at
  once.
\<close>

datatype 't call =
  Call_Start | Call_WithWorkers int | Call_Submit 't | Call_SubmitWait 't
| Call_Stop | Call_GracefulStop | Call_GetResults

fun enter :: "'t call \<Rightarrow> ('t, 'r) process \<Rightarrow> ('t, 'r) process" where
  "enter Call_Start s = Start s"
| "enter (Call_WithWorkers n) s = s\<lparr>pool := WithWorkers (pool s) n\<rparr>"
| "enter (Call_Submit task) s =
     s\<lparr>goroutines := goroutines s @ [Submitting (Submit_select task)]\<rparr>"
| "enter (Call_SubmitWait task) s =
     s\<lparr>goroutines := goroutines s @ [SubmitWaiting (SW_check task)]\<rparr>"
| "enter Call_Stop s = s\<lparr>goroutines := goroutines s @ [Stopping Stop_cancel]\<rparr>"
| "enter Call_GracefulStop s =
     s\<lparr>goroutines := goroutines s @ [GracefulStopping GS_select1]\<rparr>"
| "enter Call_GetResults s = s\<lparr>goroutines := goroutines s @ [Consumer (Reading [])]\<rparr>"

text \<open>
  The events of a run: goroutine \<open>i\<close> takes its next step (with the case its \<open>select\<close>
  takes), goroutine \<open>i\<close> hands a value to goroutine \<open>j\<close>, a caller enters a method, and
  a context above the pool's is cancelled with an error by whoever holds it: the one
  \<open>d\<close> levels above the context that was passed to \<open>NewWorkerPool\<close> (\<open>d = 0\<close> is
  that context). An event that cannot happen in a state gives \<open>None\<close>; nothing happens
  after the process died.
\<close>

datatype 't event = Run nat choice | Handoff nat nat | Enter "'t call" | CancelParent nat error

definition run_goroutine ::
  "('t, 'r) workerFunc \<Rightarrow> 'r \<Rightarrow> nat \<Rightarrow> choice \<Rightarrow> ('t, 'r) process \<Rightarrow> ('t, 'r) process option" where
  "run_goroutine f emptyR i c s =
     (if i < length (goroutines s)
      then (case goroutine_step f emptyR c (pool s) (goroutines s ! i) of
              Next (wp, g) \<Rightarrow> Some (s\<lparr>pool := wp, goroutines := (goroutines s)[i := g]\<rparr>)
            | Blocked \<Rightarrow> None
            | Crash msg \<Rightarrow> Some (s\<lparr>panicked := Some msg\<rparr>))
      else None)"

definition step ::
  "('t, 'r) workerFunc \<Rightarrow> 'r \<Rightarrow> 't event \<Rightarrow> ('t, 'r) process \<Rightarrow> ('t, 'r) process option" where
  "step f emptyR ev s =
     (if panicked s \<noteq> None then None
      else (case ev of
              Run i c \<Rightarrow> run_goroutine f emptyR i c s
            | Handoff i j \<Rightarrow> handoff s i j
            | Enter c \<Rightarrow> Some (enter c s)
            | CancelParent d err \<Rightarrow>
                Some (s\<lparr>pool := (pool s)\<lparr>ctx := cancel_ancestor (Suc d) err (ctx (pool s))\<rparr>\<rparr>)))"

fun run ::
  "('t, 'r) workerFunc \<Rightarrow> 'r \<Rightarrow> 't event list \<Rightarrow> ('t, 'r) process \<Rightarrow> ('t, 'r) process option" where
  "run f emptyR [] s = Some s"
| "run f emptyR (ev # evs) s =
     (case step f emptyR ev s of None \<Rightarrow> None | Some s' \<Rightarrow> run f emptyR evs s')"

text \<open>A pool fresh from \<open>NewWorkerPool\<close>, before any goroutine works on it.\<close>

definition idle :: "('t, 'r) WorkerPool \<Rightarrow> ('t, 'r) process" where
  "idle wp = \<lparr>pool = wp, goroutines = [], panicked = None\<rparr>"

text \<open>
  The methods have the receiver \<open>*WorkerPool\<close>: a pool is reached through its address.
  \<open>WithWorkers\<close> called through the pointer writes the field only when \<open>n > 0\<close> and
  returns the pointer it was called on.
\<close>

type_synonym ('t, 'r) store = "nat \<Rightarrow> ('t, 'r) WorkerPool option"

definition WithWorkers_ptr ::
  "('t, 'r) store \<Rightarrow> nat \<Rightarrow> int \<Rightarrow> (('t, 'r) store \<times> nat) option" where
  "WithWorkers_ptr h wp n =
     (if n > 0
      then (case h wp of None \<Rightarrow> None | Some p \<Rightarrow> Some (h(wp \<mapsto> WithWorkers p n), wp))
      else Some (h, wp))"

subsection \<open>Task functions and pools of \<open>pool_test.go\<close>\<close>

text \<open>
  The task function of \<open>TestWorkerPoolBasic\<close>: \<open>return n * 2, nil\<close>, in Go's \<open>int\<close>.
\<close>

definition double :: "(int, int) workerFunc" where
  "double c n = Return (int64 (n * 2)) None"

text \<open>
  A 64-bit host with one processor, and the sizes of \<open>int\<close> and of \<open>Result[int]\<close>
  there.
\<close>

definition one_cpu :: runtime where
  "one_cpu = \<lparr>NumCPU = 1, maxAlloc = 2 ^ 48, hchanSize = 96\<rparr>"

definition sizeof_int :: nat where
  "sizeof_int = 8"

definition sizeof_Result_int :: nat where
  "sizeof_Result_int = 24"

text \<open>
  The pool \<open>NewWorkerPool\<close> makes there from \<open>context.Background()\<close>, with buffers of
  \<open>n\<close> elements.
\<close>

definition pool_of :: "nat \<Rightarrow> (int, int) WorkerPool" where
  "pool_of n =
     \<lparr>taskChan = \<lparr>buf = [], cap = n, closed = False\<rparr>,
      resultChan = \<lparr>buf = [], cap = n, closed = False\<rparr>,
      wg = 0, ctx = cancelCtx None Background, numWorkers = 1\<rparr>"

subsection \<open>What is observed of a state\<close>







section \<open>Properties\<close>

subsection \<open>Construction\<close>

lemma NewWorkerPool_Inr:
  "NewWorkerPool rt sizeof_T sizeof_Result cxt taskBuffer = Inr wp \<longleftrightarrow>
     \<not> out_of_range rt sizeof_T taskBuffer \<and> \<not> out_of_range rt sizeof_Result taskBuffer \<and>
     wp = \<lparr>taskChan = \<lparr>buf = [], cap = nat taskBuffer, closed = False\<rparr>,
           resultChan = \<lparr>buf = [], cap = nat taskBuffer, closed = False\<rparr>,
           wg = 0, ctx = WithCancel cxt,
           numWorkers = (if NumCPU rt < 1 then 1 else NumCPU rt)\<rparr>"
  by (auto simp: NewWorkerPool_def make_chan_def Let_def)

lemma NewWorkerPool_out_of_range:
  "out_of_range rt sizeof_T taskBuffer \<or> out_of_range rt sizeof_Result taskBuffer \<Longrightarrow>
     NewWorkerPool rt sizeof_T sizeof_Result cxt taskBuffer = Inl ''makechan: size out of range''"
  by (auto simp: NewWorkerPool_def make_chan_def Let_def)

lemma out_of_range_negative: "n < 0 \<Longrightarrow> out_of_range rt elemsize n"
  by (simp add: out_of_range_def Let_def)

lemma int32_id: "- (2 ^ 31) \<le> x \<Longrightarrow> x < 2 ^ 31 \<Longrightarrow> int32 x = x"
  by (simp add: int32_def)

lemma wg_Add_small:
  "wg_Add 0 1 = Some 1" "wg_Add 1 (- 1) = Some 0" "wg_Add 0 (- 1) = None"
  by (simp_all add: wg_Add_def int32_def)

lemma double_small:
  "double c 1 = Return 2 None" "double c 2 = Return 4 None" "double c 3 = Return 6 None"
  by (simp_all add: double_def int64_def)

lemmas run_simps = step_def idle_def pool_of_def Start_def run_goroutine_def
  chan_send_def chan_recv_def chan_close_def worker_return_def cancel_def
  Done_def wg_Add_small double_small

lemma Done_cancel_with: "Done c \<Longrightarrow> Done (cancel_with e c)"
  by (cases "(e, c)" rule: cancel_with.cases) (simp_all add: Done_def)

lemma Done_cancel_with_cancelCtx: "Done (cancel_with e (cancelCtx x parent))"
  by (cases x) (simp_all add: Done_def)

lemma Done_cancel_ancestor: "Done c \<Longrightarrow> Done (cancel_ancestor d e c)"
proof (induction d e c rule: cancel_ancestor.induct)
  case (1 d e)
  then show ?case by (simp add: Done_def)
next
  case (2 e x parent)
  then show ?case by (simp add: Done_cancel_with)
next
  case (3 d e x parent)
  from "3.prems" obtain e0 where x: "x = Some e0"
    by (auto simp: Done_def)
  show ?case
    by (cases "ctx_Err (cancel_ancestor d e parent)") (simp_all add: x Done_def Let_def)
qed

text \<open>
  The child that \<open>WithCancel\<close> makes is done, after a cancellation above it, exactly when
  its parent is.
\<close>

lemma Done_child:
  "Done (cancel_ancestor (Suc d) e (WithCancel cxt)) = Done (cancel_ancestor d e cxt)"
proof (cases "ctx_Err (cancel_ancestor d e cxt)")
  case None
  then have "\<not> Done (cancel_ancestor d e cxt)"
    by (simp add: Done_def)
  with Done_cancel_ancestor [of cxt d e] have "ctx_Err cxt = None"
    by (cases "ctx_Err cxt") (auto simp: Done_def)
  with None show ?thesis
    by (simp add: WithCancel_def Done_def Let_def)
next
  case (Some e')
  then show ?thesis
    using Done_cancel_with_cancelCtx [of e' "ctx_Err cxt" "cancel_ancestor d e cxt"]
    by (simp add: WithCancel_def Done_def Let_def)
qed

text \<open>
  On a pool that \<open>NewWorkerPool\<close> made and \<open>Start\<close> started, with fewer than \<open>2^31\<close>
  workers: once a cancellation above has made the caller's context done, the first
  worker's \<open>select\<close> can take the case of the context, and the worker returns.
\<close>

lemma started_worker_leaves:
  assumes n: "1 \<le> n" "n < 2 ^ 31"
      and d: "Done (cancel_ancestor d e cxt)"
  shows "run f emptyR [Enter Call_Start, CancelParent d e, Run 0 OnDone]
           (idle \<lparr>taskChan = tc, resultChan = rc, wg = 0, ctx = WithCancel cxt, numWorkers = n\<rparr>)
         = Some \<lparr>pool = \<lparr>taskChan = tc, resultChan = rc, wg = n - 1,
                          ctx = cancel_ancestor (Suc d) e (WithCancel cxt), numWorkers = n\<rparr>,
                 goroutines = (replicate (nat n) (Worker W_select))[0 := Worker W_exit],
                 panicked = None\<rparr>"
proof -
  have a: "wg_Add 0 n = Some n"
    using n by (simp add: wg_Add_def int32_id)
  have b: "wg_Add n (- 1) = Some (n - 1)"
    using n by (simp add: wg_Add_def int32_id)
  have c: "Done (cancel_ancestor (Suc d) e (WithCancel cxt))"
    using d by (simp only: Done_child)
  have len: "0 < nat n"
    using n by simp
  have first: "replicate (nat n) (Worker W_select) ! 0 = (Worker W_select :: ('a, 'b) goroutine)"
    using len by simp
  show ?thesis
    using a b c len first
    by (simp add: step_def idle_def Start_def run_goroutine_def worker_return_def
             del: cancel_ancestor.simps)
qed

text \<open>
  C7. For a buffer size that \<open>make\<close> accepts for both element types, \<open>NewWorkerPool\<close>
  returns a pool whose two channels are open, empty and of capacity exactly
  \<open>taskBuffer\<close> (unbuffered exactly when it is 0), whose worker count is the processor
  count with 1 as the floor, whose wait group is at zero, and whose context is the
  cancellable child of the caller's: it has the caller's context as its parent, it is
  done from the start exactly when the caller's is, and after any cancellation above it
  is done exactly when the caller's context is. Once that has made it done, a worker of
  the started pool can return.
\<close>

theorem C7_NewWorkerPool:
  assumes "\<not> out_of_range rt sizeof_T taskBuffer"
      and "\<not> out_of_range rt sizeof_Result taskBuffer"
  shows "\<exists>wp. (NewWorkerPool rt sizeof_T sizeof_Result cxt taskBuffer
                  :: string + ('t, 'r) WorkerPool) = Inr wp
           \<and> int (cap (taskChan wp)) = taskBuffer \<and> int (cap (resultChan wp)) = taskBuffer
           \<and> buf (taskChan wp) = [] \<and> buf (resultChan wp) = []
           \<and> \<not> closed (taskChan wp) \<and> \<not> closed (resultChan wp)
           \<and> unbuffered (taskChan wp) = (taskBuffer = 0)
           \<and> unbuffered (resultChan wp) = (taskBuffer = 0)
           \<and> ctx wp = cancelCtx (ctx_Err cxt) cxt \<and> Done (ctx wp) = Done cxt
           \<and> (\<forall>f emptyR d e. \<exists>s. step f emptyR (CancelParent d e) (idle wp) = Some s
                  \<and> ctx (pool s) = cancel_ancestor (Suc d) e (cancelCtx (ctx_Err cxt) cxt)
                  \<and> Done (ctx (pool s)) = Done (cancel_ancestor d e cxt))
           \<and> (\<forall>f emptyR d e. NumCPU rt < 2 ^ 31 \<and> Done (cancel_ancestor d e cxt) \<longrightarrow>
                  (\<exists>s. run f emptyR [Enter Call_Start, CancelParent d e, Run 0 OnDone] (idle wp)
                         = Some s
                      \<and> goroutines s ! 0 = Worker W_exit
                      \<and> wg (pool s) = numWorkers wp - 1 \<and> panicked s = None))
           \<and> numWorkers wp = max 1 (NumCPU rt) \<and> wg wp = 0"
proof -
  let ?n = "if NumCPU rt < 1 then 1 else NumCPU rt"
  let ?wp = "\<lparr>taskChan = \<lparr>buf = [], cap = nat taskBuffer, closed = False\<rparr>,
              resultChan = \<lparr>buf = [], cap = nat taskBuffer, closed = False\<rparr>,
              wg = 0, ctx = WithCancel cxt, numWorkers = ?n\<rparr> :: ('t, 'r) WorkerPool"
  have nonneg: "0 \<le> taskBuffer"
    using assms(1) out_of_range_negative [of taskBuffer rt sizeof_T] by fastforce
  have new: "NewWorkerPool rt sizeof_T sizeof_Result cxt taskBuffer = Inr ?wp"
    using assms by (simp add: NewWorkerPool_Inr)
  have caps: "int (cap (taskChan ?wp)) = taskBuffer" "int (cap (resultChan ?wp)) = taskBuffer"
    using nonneg by simp_all
  have unb: "unbuffered (taskChan ?wp) = (taskBuffer = 0)"
            "unbuffered (resultChan ?wp) = (taskBuffer = 0)"
    using nonneg by (auto simp: unbuffered_def)
  have parent: "\<forall>f emptyR d e. \<exists>s. step f emptyR (CancelParent d e) (idle ?wp) = Some s
      \<and> ctx (pool s) = cancel_ancestor (Suc d) e (cancelCtx (ctx_Err cxt) cxt)
      \<and> Done (ctx (pool s)) = Done (cancel_ancestor d e cxt)"
    using Done_child [of _ _ cxt]
    by (simp add: step_def idle_def WithCancel_def del: cancel_ancestor.simps)
  have leaves: "\<forall>f emptyR d e. NumCPU rt < 2 ^ 31 \<and> Done (cancel_ancestor d e cxt) \<longrightarrow>
      (\<exists>s. run f emptyR [Enter Call_Start, CancelParent d e, Run 0 OnDone] (idle ?wp) = Some s
          \<and> goroutines s ! 0 = Worker W_exit
          \<and> wg (pool s) = numWorkers ?wp - 1 \<and> panicked s = None)"
  proof (intro allI impI)
    fix f :: "('t, 'r) workerFunc" and emptyR :: 'r and d e
    assume h: "NumCPU rt < 2 ^ 31 \<and> Done (cancel_ancestor d e cxt)"
    then have n: "1 \<le> ?n" "?n < 2 ^ 31" by simp_all
    have len: "0 < length (replicate (nat ?n) (Worker W_select :: ('t, 'r) goroutine))"
      using n by simp
    show "\<exists>s. run f emptyR [Enter Call_Start, CancelParent d e, Run 0 OnDone] (idle ?wp) = Some s
          \<and> goroutines s ! 0 = Worker W_exit
          \<and> wg (pool s) = numWorkers ?wp - 1 \<and> panicked s = None"
      using started_worker_leaves [OF n, of d e cxt f emptyR] h len
      by (simp del: run.simps cancel_ancestor.simps replicate.simps)
  qed
  have rest: "buf (taskChan ?wp) = []" "buf (resultChan ?wp) = []"
    "\<not> closed (taskChan ?wp)" "\<not> closed (resultChan ?wp)"
    "ctx ?wp = cancelCtx (ctx_Err cxt) cxt" "Done (ctx ?wp) = Done cxt"
    "numWorkers ?wp = max 1 (NumCPU rt)" "wg ?wp = 0"
    by (simp_all add: WithCancel_def max_def Done_def)
  show ?thesis
    by (rule exI [of _ ?wp])
       (intro conjI new caps unb parent leaves rest)
qed

theorem C7_NewWorkerPool_witness:
  "\<exists>wp. (NewWorkerPool one_cpu sizeof_int sizeof_Result_int (cancelCtx None Background) 0
            :: string + (int, int) WorkerPool) = Inr wp
      \<and> cap (taskChan wp) = 0 \<and> unbuffered (taskChan wp)
      \<and> ctx wp = cancelCtx None (cancelCtx None Background) \<and> numWorkers wp = 1
      \<and> (\<exists>s. step double 0 (CancelParent 0 Canceled) (idle wp) = Some s
             \<and> Done (ctx (pool s)))
      \<and> (\<exists>s. run double 0 [Enter Call_Start, CancelParent 0 Canceled, Run 0 OnDone] (idle wp)
               = Some s
             \<and> goroutines s ! 0 = Worker W_exit \<and> wg (pool s) = 0 \<and> panicked s = None)"
proof -
  let ?cxt = "cancelCtx None Background"
  have h1: "\<not> out_of_range one_cpu sizeof_int 0"
    and h2: "\<not> out_of_range one_cpu sizeof_Result_int 0"
    by (simp_all add: out_of_range_def one_cpu_def)
  have cpu: "NumCPU one_cpu < 2 ^ 31"
    by (simp add: one_cpu_def)
  have dn: "Done (cancel_ancestor 0 Canceled ?cxt)"
    by (simp add: Done_def)
  from C7_NewWorkerPool [OF h1 h2, where ?'t = int and ?'r = int and cxt = ?cxt]
  obtain wp :: "(int, int) WorkerPool" where
    new: "NewWorkerPool one_cpu sizeof_int sizeof_Result_int ?cxt 0 = Inr wp"
    and cap: "int (cap (taskChan wp)) = 0"
    and unb: "unbuffered (taskChan wp) = ((0::int) = 0)"
    and ctx: "ctx wp = cancelCtx (ctx_Err ?cxt) ?cxt"
    and parent: "\<forall>f emptyR d e. \<exists>s. step f emptyR (CancelParent d e) (idle wp) = Some s
        \<and> ctx (pool s) = cancel_ancestor (Suc d) e (cancelCtx (ctx_Err ?cxt) ?cxt)
        \<and> Done (ctx (pool s)) = Done (cancel_ancestor d e ?cxt)"
    and leaves: "\<forall>f emptyR d e. NumCPU one_cpu < 2 ^ 31 \<and> Done (cancel_ancestor d e ?cxt) \<longrightarrow>
        (\<exists>s. run f emptyR [Enter Call_Start, CancelParent d e, Run 0 OnDone] (idle wp) = Some s
            \<and> goroutines s ! 0 = Worker W_exit
            \<and> wg (pool s) = numWorkers wp - 1 \<and> panicked s = None)"
    and n: "numWorkers wp = max 1 (NumCPU one_cpu)"
    by (elim exE conjE)
  from parent [rule_format, where f = double and emptyR = 0 and d = 0 and e = Canceled] dn
  have a: "\<exists>s. step double 0 (CancelParent 0 Canceled) (idle wp) = Some s \<and> Done (ctx (pool s))"
    by (elim exE conjE) (intro exI conjI, assumption, simp)
  from n have n1: "numWorkers wp = 1"
    by (simp add: one_cpu_def)
  from leaves [rule_format, where f = double and emptyR = 0 and d = 0 and e = Canceled] cpu dn n1
  have b: "\<exists>s. run double 0 [Enter Call_Start, CancelParent 0 Canceled, Run 0 OnDone] (idle wp)
             = Some s
           \<and> goroutines s ! 0 = Worker W_exit \<and> wg (pool s) = 0 \<and> panicked s = None"
    by (simp del: run.simps cancel_ancestor.simps)
  from new cap unb ctx n1 a b show ?thesis
    by (intro exI [of _ wp] conjI) simp_all
qed

subsection \<open>The worker count\<close>

lemma worker_step_numWorkers:
  "worker_step f e c wp w = Next (wp', w') \<Longrightarrow> numWorkers wp' = numWorkers wp"
  by (cases "(f, e, c, wp, w)" rule: worker_step.cases)
     (auto simp: worker_return_def
           split: if_splits received.splits sent.splits outcome.splits option.splits)

lemma Submit_step_numWorkers:
  "Submit_step c wp p = Next (wp', p') \<Longrightarrow> numWorkers wp' = numWorkers wp"
  by (cases "(c, wp, p)" rule: Submit_step.cases)
     (auto split: if_splits sent.splits)

lemma SubmitWait_step_numWorkers:
  "SubmitWait_step e c wp p = Next (wp', p') \<Longrightarrow> numWorkers wp' = numWorkers wp"
  by (cases "(e, c, wp, p)" rule: SubmitWait_step.cases)
     (auto split: if_splits sent.splits received.splits)

lemma Stop_step_numWorkers:
  "Stop_step wp p = Next (wp', p') \<Longrightarrow> numWorkers wp' = numWorkers wp"
  by (cases p) (auto split: if_splits received.splits option.splits)

lemma GracefulStop_step_numWorkers:
  "GracefulStop_step wp p = Next (wp', p') \<Longrightarrow> numWorkers wp' = numWorkers wp"
  by (cases p) (auto split: if_splits received.splits option.splits)

lemma reader_step_numWorkers:
  "reader_step wp p = Next (wp', p') \<Longrightarrow> numWorkers wp' = numWorkers wp"
  by (cases p) (auto split: if_splits received.splits)

lemma map_stepped_Next:
  "map_stepped h x = Next y \<longleftrightarrow> (\<exists>z. x = Next z \<and> y = h z)"
  by (cases x) auto

lemma goroutine_step_numWorkers:
  "goroutine_step f e c wp g = Next (wp', g') \<Longrightarrow> numWorkers wp' = numWorkers wp"
  by (cases g)
     (auto simp: map_stepped_Next
           dest: worker_step_numWorkers Submit_step_numWorkers SubmitWait_step_numWorkers
                 Stop_step_numWorkers GracefulStop_step_numWorkers reader_step_numWorkers)

lemma handoff_pool: "handoff s i j = Some s' \<Longrightarrow> pool s' = pool s"
  by (auto simp: handoff_def Let_def split: if_splits option.splits prod.splits)

lemma enter_numWorkers:
  "1 \<le> numWorkers (pool s) \<Longrightarrow> 1 \<le> numWorkers (pool (enter c s))"
  by (cases c) (auto simp: Start_def Let_def WithWorkers_def split: option.splits)

lemma step_numWorkers:
  "step f e ev s = Some s' \<Longrightarrow> 1 \<le> numWorkers (pool s) \<Longrightarrow> 1 \<le> numWorkers (pool s')"
  by (cases ev)
     (auto simp: step_def run_goroutine_def enter_numWorkers
           split: if_splits stepped.splits
           dest: goroutine_step_numWorkers handoff_pool)

lemma run_numWorkers:
  "run f e evs s = Some s' \<Longrightarrow> 1 \<le> numWorkers (pool s) \<Longrightarrow> 1 \<le> numWorkers (pool s')"
  by (induction evs arbitrary: s) (auto split: option.splits dest: step_numWorkers)

text \<open>
  C8. The worker count is at least 1 in the pool \<open>NewWorkerPool\<close> returns and in every
  state a run of the program reaches from it, whatever the callers, the workers and the
  scheduler do (calls of \<open>WithWorkers\<close> and \<open>Start\<close> included). \<open>WithWorkers(n)\<close> sets
  the count to \<open>n\<close> when \<open>n > 0\<close>, changes nothing of the pool when \<open>n \<le> 0\<close>, and called
  through the pointer returns that same pointer.
\<close>

theorem C8_numWorkers_invariant:
  assumes "NewWorkerPool rt sizeof_T sizeof_Result cxt taskBuffer = Inr wp0"
      and "run f emptyR evs (idle wp0) = Some s"
  shows "1 \<le> numWorkers wp0 \<and> 1 \<le> numWorkers (pool s)
       \<and> numWorkers (WithWorkers (pool s) n) = (if n > 0 then n else numWorkers (pool s))
       \<and> 1 \<le> numWorkers (WithWorkers (pool s) n)
       \<and> (n \<le> 0 \<longrightarrow> WithWorkers (pool s) n = pool s)
       \<and> (h a = Some (pool s) \<longrightarrow>
            WithWorkers_ptr h a n = Some (h(a \<mapsto> WithWorkers (pool s) n), a))"
proof -
  have n0: "1 \<le> numWorkers wp0"
    using assms(1) by (auto simp: NewWorkerPool_Inr)
  then have n1: "1 \<le> numWorkers (pool s)"
    using run_numWorkers [OF assms(2)] by (simp add: idle_def)
  have set: "numWorkers (WithWorkers (pool s) n) = (if n > 0 then n else numWorkers (pool s))"
    by (simp add: WithWorkers_def)
  have keep: "n \<le> 0 \<longrightarrow> WithWorkers (pool s) n = pool s"
    by (simp add: WithWorkers_def)
  have ptr: "h a = Some (pool s) \<longrightarrow>
      WithWorkers_ptr h a n = Some (h(a \<mapsto> WithWorkers (pool s) n), a)"
    by (auto simp: WithWorkers_ptr_def WithWorkers_def)
  from n0 n1 set keep ptr show ?thesis
    by (simp add: WithWorkers_def)
qed

theorem C8_numWorkers_invariant_witness:
  "NewWorkerPool one_cpu sizeof_int sizeof_Result_int Background 2 = Inr (pool_of 2)
   \<and> run double 0 [Enter (Call_WithWorkers (- 5)), Enter Call_Start] (idle (pool_of 2))
       = Some \<lparr>pool = (pool_of 2)\<lparr>wg := 1\<rparr>, goroutines = [Worker W_select], panicked = None\<rparr>
   \<and> 1 \<le> numWorkers ((pool_of 2)\<lparr>wg := 1\<rparr>)
   \<and> WithWorkers ((pool_of 2)\<lparr>wg := 1\<rparr>) 0 = (pool_of 2)\<lparr>wg := 1\<rparr>
   \<and> WithWorkers_ptr (Map.empty(7 \<mapsto> (pool_of 2)\<lparr>wg := 1\<rparr>)) 7 0
       = Some (Map.empty(7 \<mapsto> (pool_of 2)\<lparr>wg := 1\<rparr>), 7)"
proof -
  let ?s = "\<lparr>pool = (pool_of 2)\<lparr>wg := 1\<rparr>, goroutines = [Worker W_select], panicked = None\<rparr>"
  have a: "NewWorkerPool one_cpu sizeof_int sizeof_Result_int Background 2 = Inr (pool_of 2)"
    by (simp add: NewWorkerPool_Inr pool_of_def WithCancel_def out_of_range_def one_cpu_def
                  sizeof_int_def sizeof_Result_int_def)
  have b: "run double 0 [Enter (Call_WithWorkers (- 5)), Enter Call_Start] (idle (pool_of 2))
             = Some ?s"
    by (simp add: run_simps WithWorkers_def)
  show ?thesis
    using a b
      C8_numWorkers_invariant [OF a b, where n = 0
        and h = "Map.empty(7 \<mapsto> (pool_of 2)\<lparr>wg := 1\<rparr>)" and a = 7]
    by simp
qed

subsection \<open>The workers of a started pool\<close>

lemma goroutine_step_NextE:
  assumes "goroutine_step f e c wp g = Next (wp', g')"
  obtains
    (Worker) w w' where "g = Worker w" "g' = Worker w'" "worker_step f e c wp w = Next (wp', w')"
  | (Submitting) p p' where "g = Submitting p" "g' = Submitting p'"
      "Submit_step c wp p = Next (wp', p')"
  | (SubmitWaiting) p p' where "g = SubmitWaiting p" "g' = SubmitWaiting p'"
      "SubmitWait_step e c wp p = Next (wp', p')"
  | (Stopping) p p' where "g = Stopping p" "g' = Stopping p'" "Stop_step wp p = Next (wp', p')"
  | (GracefulStopping) p p' where "g = GracefulStopping p" "g' = GracefulStopping p'"
      "GracefulStop_step wp p = Next (wp', p')"
  | (Consumer) p p' where "g = Consumer p" "g' = Consumer p'" "reader_step wp p = Next (wp', p')"
proof (cases g)
  case (Worker w)
  with assms obtain w' where "g' = Worker w'" "worker_step f e c wp w = Next (wp', w')"
    by (auto simp: map_stepped_Next)
  with Worker that(1) show ?thesis by blast
next
  case (Submitting p)
  with assms obtain p' where "g' = Submitting p'" "Submit_step c wp p = Next (wp', p')"
    by (auto simp: map_stepped_Next)
  with Submitting that(2) show ?thesis by blast
next
  case (SubmitWaiting p)
  with assms obtain p' where "g' = SubmitWaiting p'" "SubmitWait_step e c wp p = Next (wp', p')"
    by (auto simp: map_stepped_Next)
  with SubmitWaiting that(3) show ?thesis by blast
next
  case (Stopping p)
  with assms obtain p' where "g' = Stopping p'" "Stop_step wp p = Next (wp', p')"
    by (auto simp: map_stepped_Next)
  with Stopping that(4) show ?thesis by blast
next
  case (GracefulStopping p)
  with assms obtain p' where "g' = GracefulStopping p'" "GracefulStop_step wp p = Next (wp', p')"
    by (auto simp: map_stepped_Next)
  with GracefulStopping that(5) show ?thesis by blast
next
  case (Consumer p)
  with assms obtain p' where "g' = Consumer p'" "reader_step wp p = Next (wp', p')"
    by (auto simp: map_stepped_Next)
  with Consumer that(6) show ?thesis by blast
qed




















subsection \<open>A panic of the task function\<close>




subsection \<open>The checks before the closes\<close>

text \<open>
  C6. The check of \<open>Stop\<close> and the two checks of \<open>GracefulStop\<close> are receives. On an
  open channel that holds \<open>x\<close> followed by \<open>xs\<close> the check takes \<open>x\<close> out, keeps it
  nowhere, and goes on to the close, which leaves the channel closed with \<open>xs\<close>: for
  the result channel one pending Result is lost, for the task channel one queued task.
\<close>

theorem C6_check_consumes_one:
  "(buf (resultChan wp) = res # rs \<and> \<not> closed (resultChan wp) \<longrightarrow>
      Stop_step wp Stop_select
        = Next (wp\<lparr>resultChan := (resultChan wp)\<lparr>buf := rs\<rparr>\<rparr>, Stop_close)
      \<and> Stop_step (wp\<lparr>resultChan := (resultChan wp)\<lparr>buf := rs\<rparr>\<rparr>) Stop_close
        = Next (wp\<lparr>resultChan := (resultChan wp)\<lparr>buf := rs, closed := True\<rparr>\<rparr>, Stop_return)
      \<and> GracefulStop_step wp GS_select2
        = Next (wp\<lparr>resultChan := (resultChan wp)\<lparr>buf := rs\<rparr>\<rparr>, GS_close2)
      \<and> GracefulStop_step (wp\<lparr>resultChan := (resultChan wp)\<lparr>buf := rs\<rparr>\<rparr>) GS_close2
        = Next (wp\<lparr>resultChan := (resultChan wp)\<lparr>buf := rs, closed := True\<rparr>\<rparr>, GS_return))
   \<and> (buf (taskChan wp) = task # ts \<and> \<not> closed (taskChan wp) \<longrightarrow>
      GracefulStop_step wp GS_select1
        = Next (wp\<lparr>taskChan := (taskChan wp)\<lparr>buf := ts\<rparr>\<rparr>, GS_close1)
      \<and> GracefulStop_step (wp\<lparr>taskChan := (taskChan wp)\<lparr>buf := ts\<rparr>\<rparr>) GS_close1
        = Next (wp\<lparr>taskChan := (taskChan wp)\<lparr>buf := ts, closed := True\<rparr>\<rparr>, GS_wait))"
  by (simp add: chan_recv_def chan_close_def)

theorem C6_check_consumes_one_witness:
  "Stop_step ((pool_of 2)\<lparr>resultChan := \<lparr>buf = [\<lparr>Value = 2, Err = None\<rparr>,
        \<lparr>Value = 4, Err = None\<rparr>], cap = 2, closed = False\<rparr>\<rparr>) Stop_select
     = Next ((pool_of 2)\<lparr>resultChan := \<lparr>buf = [\<lparr>Value = 4, Err = None\<rparr>],
          cap = 2, closed = False\<rparr>\<rparr>, Stop_close)
   \<and> GracefulStop_step ((pool_of 2)\<lparr>taskChan := \<lparr>buf = [1, 2], cap = 2, closed = False\<rparr>\<rparr>)
        GS_select1
     = Next ((pool_of 2)\<lparr>taskChan := \<lparr>buf = [2], cap = 2, closed = False\<rparr>\<rparr>, GS_close1)"
  using
    C6_check_consumes_one [of "(pool_of 2)\<lparr>resultChan := \<lparr>buf = [\<lparr>Value = 2, Err = None\<rparr>,
        \<lparr>Value = 4, Err = None\<rparr>], cap = 2, closed = False\<rparr>\<rparr>"
        "\<lparr>Value = 2, Err = None\<rparr>" "[\<lparr>Value = 4, Err = None\<rparr>]" 0 "[]"]
    C6_check_consumes_one [of "(pool_of 2)\<lparr>taskChan := \<lparr>buf = [1, 2], cap = 2, closed = False\<rparr>\<rparr>"
        "\<lparr>Value = 0, Err = None\<rparr>" "[]" 1 "[2]"]
  by (simp add: pool_of_def)

subsection \<open>What a Result carries\<close>





subsection \<open>Runs of the tests that end differently\<close>

text \<open>
  C1. Two tasks are submitted to a started pool of buffer 2 with one worker, and both
  calls of \<open>Submit\<close> return true; then \<open>GracefulStop\<close> is called while the worker has
  not yet taken a task. Its check of the task channel receives task 1 and drops it; the
  worker executes task 2 only; the consumer of \<open>GetResults\<close> receives one Result and
  then sees the channel closed. Two tasks were accepted, one Result appeared.
\<close>

theorem C1_graceful_drain_drops_task:
  "run double 0
     [Enter Call_Start, Enter Call_GetResults,
      Enter (Call_Submit 1), Run 2 OnComm, Enter (Call_Submit 2), Run 3 OnComm,
      Enter Call_GracefulStop, Run 4 OnComm, Run 4 OnComm,
      Run 0 OnComm, Run 0 OnComm, Run 0 OnComm, Run 1 OnComm, Run 0 OnComm,
      Run 4 OnComm, Run 4 OnComm, Run 4 OnComm, Run 4 OnComm, Run 1 OnComm]
     (idle (pool_of 2))
   = Some \<lparr>pool = \<lparr>taskChan = \<lparr>buf = [], cap = 2, closed = True\<rparr>,
                    resultChan = \<lparr>buf = [], cap = 2, closed = True\<rparr>,
                    wg = 0, ctx = cancelCtx (Some Canceled) Background, numWorkers = 1\<rparr>,
           goroutines =
             [Worker W_exit, Consumer (Read_end [\<lparr>Value = 4, Err = None\<rparr>]),
              Submitting (Submit_return True), Submitting (Submit_return True),
              GracefulStopping GS_return],
           panicked = None\<rparr>"
  by (simp add: run_simps)

text \<open>
  C2. The pool of \<open>TestWorkerPoolCancelledContext\<close>: its context is cancelled before
  the pool is made, and its buffer has room. The \<open>select\<close> of \<open>Submit(1)\<close> can proceed
  with both of its cases and may take the send: \<open>Submit\<close> returns true and the task is
  queued; the worker's \<open>select\<close> may in the same way take the task, and the task function
  runs on it.
\<close>

theorem C2_Submit_after_cancel_accepts:
  "NewWorkerPool one_cpu sizeof_int sizeof_Result_int (cancelCtx (Some Canceled) Background) 10
     = Inr \<lparr>taskChan = \<lparr>buf = [], cap = 10, closed = False\<rparr>,
            resultChan = \<lparr>buf = [], cap = 10, closed = False\<rparr>,
            wg = 0, ctx = cancelCtx (Some Canceled) (cancelCtx (Some Canceled) Background),
            numWorkers = 1\<rparr>
   \<and> run double 0
       [Enter Call_Start, Enter (Call_Submit 1), Run 1 OnComm, Run 0 OnComm, Run 0 OnComm]
       (idle \<lparr>taskChan = \<lparr>buf = [], cap = 10, closed = False\<rparr>,
              resultChan = \<lparr>buf = [], cap = 10, closed = False\<rparr>,
              wg = 0, ctx = cancelCtx (Some Canceled) (cancelCtx (Some Canceled) Background),
              numWorkers = 1\<rparr>)
     = Some \<lparr>pool = \<lparr>taskChan = \<lparr>buf = [], cap = 10, closed = False\<rparr>,
                      resultChan = \<lparr>buf = [], cap = 10, closed = False\<rparr>,
                      wg = 1,
                      ctx = cancelCtx (Some Canceled) (cancelCtx (Some Canceled) Background),
                      numWorkers = 1\<rparr>,
             goroutines = [Worker (W_send \<lparr>Value = 2, Err = None\<rparr>),
                           Submitting (Submit_return True)],
             panicked = None\<rparr>"
  by (simp add: run_simps NewWorkerPool_Inr WithCancel_def out_of_range_def one_cpu_def
                sizeof_int_def sizeof_Result_int_def)

text \<open>
  What does hold after a cancellation: the context stays done in every later state,
  \<open>SubmitWait\<close> returns the context's error from its first check, without a send, and
  \<open>Submit\<close> returns false whenever its \<open>select\<close> takes the case of the context.
\<close>

lemma SubmitWait_after_cancel:
  "Done (ctx wp) \<Longrightarrow>
     SubmitWait_step emptyR c wp (SW_check task) = Next (wp, SW_return emptyR (ctx_Err (ctx wp)))"
  by (simp add: Done_def)

lemma Submit_after_cancel:
  "Done (ctx wp) \<Longrightarrow>
     Submit_step OnDone wp (Submit_select task) = Next (wp, Submit_return False)"
  by simp

lemma goroutine_step_Done:
  assumes "goroutine_step f e c wp g = Next (wp', g')" "Done (ctx wp)"
  shows "Done (ctx wp')"
  using assms(1)
proof (cases rule: goroutine_step_NextE)
  case (Worker w w')
  with assms(2) show ?thesis
    by (cases "(f, e, c, wp, w)" rule: worker_step.cases)
       (auto simp: worker_return_def
             split: if_splits received.splits sent.splits outcome.splits option.splits)
next
  case (Submitting p p')
  with assms(2) show ?thesis
    by (cases "(c, wp, p)" rule: Submit_step.cases) (auto split: if_splits sent.splits)
next
  case (SubmitWaiting p p')
  with assms(2) show ?thesis
    by (cases "(e, c, wp, p)" rule: SubmitWait_step.cases)
       (auto split: if_splits sent.splits received.splits)
next
  case (Stopping p p')
  with assms(2) show ?thesis
    by (cases p)
       (auto simp: cancel_def Done_cancel_with split: if_splits received.splits option.splits)
next
  case (GracefulStopping p p')
  with assms(2) show ?thesis
    by (cases p)
       (auto simp: cancel_def Done_cancel_with split: if_splits received.splits option.splits)
next
  case (Consumer p p')
  with assms(2) show ?thesis
    by (cases p) (auto split: if_splits received.splits)
qed

lemma step_Done:
  assumes "step f e ev s = Some s'" "Done (ctx (pool s))"
  shows "Done (ctx (pool s'))"
proof (cases ev)
  case (Run i c)
  with assms show ?thesis
    by (auto simp: step_def run_goroutine_def split: if_splits stepped.splits
             dest: goroutine_step_Done)
next
  case (Handoff i j)
  with assms show ?thesis
    by (auto simp: step_def split: if_splits dest: handoff_pool)
next
  case (Enter c)
  with assms show ?thesis
    by (cases c)
       (auto simp: step_def Start_def Let_def WithWorkers_def split: if_splits option.splits)
next
  case (CancelParent d err)
  with assms Done_cancel_ancestor [of "ctx (pool s)" "Suc d" err] show ?thesis
    by (auto simp: step_def simp del: cancel_ancestor.simps split: if_splits)
qed

lemma run_Done:
  "run f e evs s = Some s' \<Longrightarrow> Done (ctx (pool s)) \<Longrightarrow> Done (ctx (pool s'))"
  by (induction evs arbitrary: s) (auto split: option.splits dest: step_Done)

text \<open>
  C4. Two tasks run and their two Results stay in the buffer; nobody reads them.
  \<open>GracefulStop\<close> drops the first Result in its check and closes the result channel with
  the second still buffered. A later \<open>Stop\<close> (the deferred \<open>pool.Stop()\<close> of the
  benchmarks) then receives that Result with \<open>ok = true\<close>, takes the channel for open and
  closes it again: the process panics.
\<close>

theorem C4_close_of_closed_channel:
  "run double 0
     [Enter Call_Start, Enter (Call_Submit 1), Run 1 OnComm, Enter (Call_Submit 2), Run 2 OnComm,
      Run 0 OnComm, Run 0 OnComm, Run 0 OnComm, Run 0 OnComm, Run 0 OnComm, Run 0 OnComm,
      Enter Call_GracefulStop, Run 3 OnComm, Run 3 OnComm, Run 0 OnComm,
      Run 3 OnComm, Run 3 OnComm, Run 3 OnComm, Run 3 OnComm,
      Enter Call_Stop, Run 4 OnComm, Run 4 OnComm, Run 4 OnComm, Run 4 OnComm]
     (idle (pool_of 2))
   = Some \<lparr>pool = \<lparr>taskChan = \<lparr>buf = [], cap = 2, closed = True\<rparr>,
                    resultChan = \<lparr>buf = [], cap = 2, closed = True\<rparr>,
                    wg = 0, ctx = cancelCtx (Some Canceled) Background, numWorkers = 1\<rparr>,
           goroutines =
             [Worker W_exit, Submitting (Submit_return True), Submitting (Submit_return True),
              GracefulStopping GS_return, Stopping Stop_close],
           panicked = Some ''close of closed channel''\<rparr>"
  by (simp add: run_simps)

subsection \<open>What \<open>Stop\<close> does\<close>

text \<open>
  The steps of \<open>Stop\<close> are as the claim has them: it cancels the context, waits for
  the counter of the wait group to be zero, closes the result channel that its check finds
  open and returns without a close when the check finds it closed and empty; and no step
  of it changes the task channel.
\<close>

lemma Stop_steps:
  "Stop_step wp Stop_cancel = Next (wp\<lparr>ctx := cancel (ctx wp)\<rparr>, Stop_wait)"
  "Stop_step wp Stop_wait = (if wg wp = 0 then Next (wp, Stop_select) else Blocked)"
  "\<not> closed (resultChan wp) \<Longrightarrow> buf (resultChan wp) = [] \<Longrightarrow>
     Stop_step wp Stop_select = Next (wp, Stop_close)"
  "\<not> closed (resultChan wp) \<Longrightarrow>
     Stop_step wp Stop_close = Next (wp\<lparr>resultChan := (resultChan wp)\<lparr>closed := True\<rparr>\<rparr>, Stop_return)"
  "closed (resultChan wp) \<Longrightarrow> buf (resultChan wp) = [] \<Longrightarrow>
     Stop_step wp Stop_select = Next (wp, Stop_return)"
  by (simp_all add: chan_recv_def chan_close_def)

lemma Stop_step_frame:
  "Stop_step wp p = Next (wp', p') \<Longrightarrow>
     taskChan wp' = taskChan wp \<and> wg wp' = wg wp \<and> numWorkers wp' = numWorkers wp"
  by (cases p) (auto simp: chan_recv_def chan_close_def split: if_splits list.splits)

text \<open>
  C5. A task is queued in a started pool and \<open>Stop\<close> is called: it cancels the context
  and waits. The worker is at the \<open>select\<close> of its loop, which can now proceed with both
  of its cases, and it takes the task: a task that sat in the queue when \<open>Stop\<close>
  cancelled is executed, and its Result is ready to be published.
\<close>

theorem C5_queued_task_runs_after_Stop:
  "run double 0
     [Enter Call_Start, Enter (Call_Submit 1), Run 1 OnComm, Enter Call_Stop, Run 2 OnComm]
     (idle (pool_of 2))
   = Some \<lparr>pool = \<lparr>taskChan = \<lparr>buf = [1], cap = 2, closed = False\<rparr>,
                    resultChan = \<lparr>buf = [], cap = 2, closed = False\<rparr>,
                    wg = 1, ctx = cancelCtx (Some Canceled) Background, numWorkers = 1\<rparr>,
           goroutines = [Worker W_select, Submitting (Submit_return True), Stopping Stop_wait],
           panicked = None\<rparr>
   \<and> run double 0 [Run 0 OnComm, Run 0 OnComm]
       \<lparr>pool = \<lparr>taskChan = \<lparr>buf = [1], cap = 2, closed = False\<rparr>,
                resultChan = \<lparr>buf = [], cap = 2, closed = False\<rparr>,
                wg = 1, ctx = cancelCtx (Some Canceled) Background, numWorkers = 1\<rparr>,
        goroutines = [Worker W_select, Submitting (Submit_return True), Stopping Stop_wait],
        panicked = None\<rparr>
   = Some \<lparr>pool = \<lparr>taskChan = \<lparr>buf = [], cap = 2, closed = False\<rparr>,
                    resultChan = \<lparr>buf = [], cap = 2, closed = False\<rparr>,
                    wg = 1, ctx = cancelCtx (Some Canceled) Background, numWorkers = 1\<rparr>,
           goroutines = [Worker (W_send \<lparr>Value = 2, Err = None\<rparr>),
                         Submitting (Submit_return True), Stopping Stop_wait],
           panicked = None\<rparr>"
  by (simp add: run_simps)

end
